theory Spec2Isabelle
  imports Complex_Main "HOL-Library.AList"
begin

section \<open>The portfolio page script (src/script.js)\<close>

text \<open>
  The script is one \<^verbatim>\<open>DOMContentLoaded\<close> callback. It reads a handful of elements from
  the document, applies the persisted theme, registers click, pointer and intersection
  listeners and starts a self-rescheduling typing timer. The model below passes the page
  state explicitly: every handler of the script is a function from the state before the
  event to the state after it, and a thrown \<^verbatim>\<open>TypeError\<close> is a value.
\<close>

subsection \<open>Errors\<close>

text \<open>
  The only exception the script can raise is the \<^verbatim>\<open>TypeError\<close> of a property access on
  \<^verbatim>\<open>null\<close> or \<^verbatim>\<open>undefined\<close>.
\<close>

datatype error = TypeError

subsection \<open>Class lists\<close>

text \<open>
  A \<^verbatim>\<open>DOMTokenList\<close> is an ordered set of tokens: \<^verbatim>\<open>add\<close> appends a token that is not
  there yet and does nothing otherwise, \<^verbatim>\<open>remove\<close> deletes it, \<^verbatim>\<open>toggle\<close> does the one
  or the other.
\<close>

definition classList_contains :: "string \<Rightarrow> string list \<Rightarrow> bool" where
  "classList_contains c cs = (c \<in> set cs)"

definition classList_add :: "string \<Rightarrow> string list \<Rightarrow> string list" where
  "classList_add c cs = (if c \<in> set cs then cs else cs @ [c])"

definition classList_remove :: "string \<Rightarrow> string list \<Rightarrow> string list" where
  "classList_remove c cs = removeAll c cs"

definition classList_toggle :: "string \<Rightarrow> string list \<Rightarrow> string list" where
  "classList_toggle c cs = (if c \<in> set cs then removeAll c cs else cs @ [c])"

subsection \<open>The page state\<close>

text \<open>
  A CSS transform as the tilt handlers write it: \<^verbatim>\<open>perspective(..px) rotateX(..)
  rotateY(..) scale(..)\<close>. JavaScript numbers are modelled as reals; a quotient whose divisor
  is zero is \<^verbatim>\<open>NaN\<close> or an infinity in JavaScript and \<open>None\<close> here.
\<close>

record transform =
  t_perspective :: real
  t_rotateX :: "real option"
  t_rotateY :: "real option"
  t_scale :: real

text \<open>An element: its id, its class list and the transform of its inline style.\<close>

record node =
  node_id :: string
  classList :: "string list"
  style_transform :: "transform option"

text \<open>The listeners the script registers, named after the place that registers them.\<close>

datatype handler =
  ThemeToggleClick | MobileMenuClick | NavLinkClick | TiltMouseMove | TiltMouseLeave

text \<open>
  The closure variables of the typing effect (\<^verbatim>\<open>roleIndex\<close>, \<^verbatim>\<open>charIndex\<close>,
  \<^verbatim>\<open>isDeleting\<close>, \<^verbatim>\<open>typeSpeed\<close>), the text of the typing element, and the delay of the
  pending \<^verbatim>\<open>setTimeout\<close> call, if there is one.
\<close>

record animator =
  roleIndex :: nat
  charIndex :: int
  isDeleting :: bool
  typeSpeed :: nat
  textContent :: string
  timer :: "nat option"

text \<open>
  The page: the elements in document order (an element is named by its position), the
  attributes of the root element, the local storage, the console, the registered
  listeners (element, handler), the typing effect's state and the targets of the
  intersection observer.
\<close>

record page =
  nodes :: "node list"
  root_attrs :: "(string \<times> string) list"
  localStorage :: "(string \<times> string) list"
  console :: "string list"
  listeners :: "(nat \<times> handler) list"
  anim :: animator
  observed :: "nat list"

subsection \<open>DOM and storage primitives\<close>

definition hasAttribute :: "string \<Rightarrow> (string \<times> string) list \<Rightarrow> bool" where
  "hasAttribute k attrs = (map_of attrs k \<noteq> None)"

definition setAttribute :: "string \<Rightarrow> string \<Rightarrow> (string \<times> string) list \<Rightarrow> (string \<times> string) list" where
  "setAttribute k v attrs = AList.update k v attrs"

definition removeAttribute :: "string \<Rightarrow> (string \<times> string) list \<Rightarrow> (string \<times> string) list" where
  "removeAttribute k attrs = AList.delete k attrs"

definition getItem :: "string \<Rightarrow> (string \<times> string) list \<Rightarrow> string option" where
  "getItem k store = map_of store k"

definition setItem :: "string \<Rightarrow> string \<Rightarrow> (string \<times> string) list \<Rightarrow> (string \<times> string) list" where
  "setItem k v store = AList.update k v store"

text \<open>Positions of the elements that satisfy a test, in document order.\<close>

fun positions :: "(node \<Rightarrow> bool) \<Rightarrow> nat \<Rightarrow> node list \<Rightarrow> nat list" where
  "positions P i [] = []"
| "positions P i (n # ns) = (if P n then i # positions P (Suc i) ns else positions P (Suc i) ns)"

definition getElementById :: "string \<Rightarrow> page \<Rightarrow> nat option" where
  "getElementById ident p =
     (case positions (\<lambda>n. node_id n = ident) 0 (nodes p) of [] \<Rightarrow> None | i # _ \<Rightarrow> Some i)"

text \<open>\<^verbatim>\<open>querySelectorAll\<close> for a comma-separated list of class selectors.\<close>

definition querySelectorAll :: "string list \<Rightarrow> page \<Rightarrow> nat list" where
  "querySelectorAll cs p = positions (\<lambda>n. set cs \<inter> set (classList n) \<noteq> {}) 0 (nodes p)"

definition querySelector :: "string \<Rightarrow> page \<Rightarrow> nat option" where
  "querySelector c p = (case querySelectorAll [c] p of [] \<Rightarrow> None | i # _ \<Rightarrow> Some i)"

definition addEventListener :: "nat \<Rightarrow> handler \<Rightarrow> page \<Rightarrow> page" where
  "addEventListener i h p = p\<lparr>listeners := listeners p @ [(i, h)]\<rparr>"

definition update_node :: "nat \<Rightarrow> (node \<Rightarrow> node) \<Rightarrow> page \<Rightarrow> page" where
  "update_node i f p =
     (if i < length (nodes p) then p\<lparr>nodes := (nodes p)[i := f (nodes p ! i)]\<rparr> else p)"

subsection \<open>Theme toggle\<close>

definition THEME_STORAGE_KEY :: string where
  "THEME_STORAGE_KEY = ''portfolio-theme''"

definition applyTheme :: "string \<Rightarrow> page \<Rightarrow> page" where
  "applyTheme theme p =
     (if theme = ''light''
      then p\<lparr>root_attrs := setAttribute ''data-theme'' ''light'' (root_attrs p),
             console := console p @ [''Applied Light Theme'']\<rparr>
      else p\<lparr>root_attrs := removeAttribute ''data-theme'' (root_attrs p),
             console := console p @ [''Applied Dark Theme'']\<rparr>)"

text \<open>
  \<^verbatim>\<open>if (savedTheme)\<close> is a truthiness test: it fails for a missing entry
  (\<^verbatim>\<open>null\<close>) and for the empty string.
\<close>

definition initTheme :: "page \<Rightarrow> page" where
  "initTheme p =
     (case getItem THEME_STORAGE_KEY (localStorage p) of
        None \<Rightarrow> p
      | Some savedTheme \<Rightarrow> if savedTheme \<noteq> [] then applyTheme savedTheme p else p)"

text \<open>The click listener of the theme toggle button.\<close>

definition themeToggleClick :: "page \<Rightarrow> page" where
  "themeToggleClick p =
     (let isLight = hasAttribute ''data-theme'' (root_attrs p);
          newTheme = (if isLight then ''dark'' else ''light'');
          p1 = applyTheme newTheme p
      in p1\<lparr>localStorage := setItem THEME_STORAGE_KEY newTheme (localStorage p1)\<rparr>)"

subsection \<open>Mobile navigation\<close>

text \<open>
  The menu button's listener dereferences \<^verbatim>\<open>navMenu\<close>, the first element of class
  \<^verbatim>\<open>main-nav\<close>; so does the listener of every navigation link. The script reads
  \<^verbatim>\<open>navMenu\<close> once, at start-up; no handler adds or removes the class \<^verbatim>\<open>main-nav\<close>
  and the model has no handler that adds or removes elements, so reading it at the click
  names the same element.
\<close>

definition mobileMenuClick :: "page \<Rightarrow> error + page" where
  "mobileMenuClick p =
     (case querySelector ''main-nav'' p of
        None \<Rightarrow> Inl TypeError
      | Some navMenu \<Rightarrow>
          Inr ((update_node navMenu (\<lambda>n. n\<lparr>classList := classList_toggle ''active'' (classList n)\<rparr>) p)
                 \<lparr>console := console p @ [''Mobile menu toggled'']\<rparr>))"

definition navLinkClick :: "page \<Rightarrow> error + page" where
  "navLinkClick p =
     (case querySelector ''main-nav'' p of
        None \<Rightarrow> Inl TypeError
      | Some navMenu \<Rightarrow>
          Inr (update_node navMenu
                 (\<lambda>n. if classList_contains ''active'' (classList n)
                      then n\<lparr>classList := classList_remove ''active'' (classList n)\<rparr> else n) p))"

subsection \<open>Typing effect\<close>

text \<open>
  \<^verbatim>\<open>s.substring(0, e)\<close>: a negative end counts as 0 and an end beyond the length as the
  length.
\<close>

definition substring0 :: "string \<Rightarrow> int \<Rightarrow> string" where
  "substring0 s e = take (nat e) s"

text \<open>\<^verbatim>\<open>roles[roleIndex]\<close> is \<^verbatim>\<open>undefined\<close> outside the array.\<close>

definition role_at :: "string list \<Rightarrow> nat \<Rightarrow> string option" where
  "role_at roles i = (if i < length roles then Some (roles ! i) else None)"

text \<open>
  One tick. Calling \<^verbatim>\<open>substring\<close> on \<^verbatim>\<open>undefined\<close> throws before anything is written.
  The last line is \<^verbatim>\<open>setTimeout(typeEffect, typeSpeed)\<close>.
\<close>

definition typeEffect :: "string list \<Rightarrow> animator \<Rightarrow> error + animator" where
  "typeEffect roles s =
     (case role_at roles (roleIndex s) of
        None \<Rightarrow> Inl TypeError
      | Some currentRole \<Rightarrow>
          (let s1 = (if isDeleting s
                     then s\<lparr>textContent := substring0 currentRole (charIndex s - 1),
                            charIndex := charIndex s - 1,
                            typeSpeed := 50\<rparr>
                     else s\<lparr>textContent := substring0 currentRole (charIndex s + 1),
                            charIndex := charIndex s + 1,
                            typeSpeed := 100\<rparr>);
               s2 = (if \<not> isDeleting s1 \<and> charIndex s1 = int (length currentRole)
                     then s1\<lparr>isDeleting := True, typeSpeed := 2000\<rparr>
                     else if isDeleting s1 \<and> charIndex s1 = 0
                     then s1\<lparr>isDeleting := False,
                             roleIndex := (roleIndex s1 + 1) mod length roles,
                             typeSpeed := 500\<rparr>
                     else s1)
           in Inr (s2\<lparr>timer := Some (typeSpeed s2)\<rparr>)))"

text \<open>The closure variables as the script initialises them; the element starts empty.\<close>

definition anim_init :: animator where
  "anim_init = \<lparr>roleIndex = 0, charIndex = 0, isDeleting = False, typeSpeed = 100,
                textContent = [], timer = None\<rparr>"

text \<open>The roles of the script.\<close>

definition script_roles :: "string list" where
  "script_roles = [''Lakdaram Sridhar Yadav'', ''Frontend Developer'']"

text \<open>\<open>n\<close> ticks in a row, each started by the timer the one before it set.\<close>

fun ticks :: "nat \<Rightarrow> string list \<Rightarrow> animator \<Rightarrow> error + animator" where
  "ticks 0 roles s = Inr s"
| "ticks (Suc n) roles s =
     (case typeEffect roles s of Inl e \<Rightarrow> Inl e | Inr s' \<Rightarrow> ticks n roles s')"

subsection \<open>Scroll reveal\<close>

text \<open>
  An \<^verbatim>\<open>IntersectionObserverEntry\<close>, as far as the callback reads it. Whether the target
  counts as intersecting (here: at the 15 percent threshold of the observer's options) is
  the browser's computation and an input of the model.
\<close>

record entry =
  target :: nat
  isIntersecting :: bool

text \<open>Observing a target twice registers it once; unobserving removes it.\<close>

definition observe :: "nat \<Rightarrow> page \<Rightarrow> page" where
  "observe e p = p\<lparr>observed := (if e \<in> set (observed p) then observed p else observed p @ [e])\<rparr>"

definition unobserve :: "nat \<Rightarrow> page \<Rightarrow> page" where
  "unobserve e p = p\<lparr>observed := removeAll e (observed p)\<rparr>"

text \<open>\<^verbatim>\<open>element.classList.add(c)\<close>, on an element and on the element at a position.\<close>

definition node_add_class :: "string \<Rightarrow> node \<Rightarrow> node" where
  "node_add_class c n = n\<lparr>classList := classList_add c (classList n)\<rparr>"

definition add_class :: "string \<Rightarrow> nat \<Rightarrow> page \<Rightarrow> page" where
  "add_class c e p = update_node e (node_add_class c) p"

definition revealSelectors :: "string list" where
  "revealSelectors = [''section-title'', ''about-content'', ''skill-card'', ''hero-text'', ''hero-visual'']"

text \<open>The two \<^verbatim>\<open>forEach\<close> passes over \<^verbatim>\<open>revealElements\<close>: tag, then observe.\<close>

definition revealInit :: "page \<Rightarrow> page" where
  "revealInit p =
     (let revealElements = querySelectorAll revealSelectors p;
          p1 = fold (add_class ''reveal'') revealElements p
      in fold observe revealElements p1)"

text \<open>The observer's callback, entry by entry.\<close>

definition revealEntry :: "entry \<Rightarrow> page \<Rightarrow> page" where
  "revealEntry en p =
     (if isIntersecting en
      then unobserve (target en) (add_class ''active'' (target en) p)
      else p)"

definition revealCallback :: "entry list \<Rightarrow> page \<Rightarrow> page" where
  "revealCallback entries p = fold revealEntry entries p"

text \<open>
  The browser's side: it only reports on targets the observer observes when the
  notification is delivered.
\<close>

definition intersectionNotify :: "entry list \<Rightarrow> page \<Rightarrow> page" where
  "intersectionNotify entries p =
     revealCallback (filter (\<lambda>en. target en \<in> set (observed p)) entries) p"

text \<open>A sequence of notifications, one batch of entries after the other.\<close>

definition notifications :: "entry list list \<Rightarrow> page \<Rightarrow> page" where
  "notifications batches p = fold intersectionNotify batches p"

subsection \<open>Tilt\<close>

text \<open>The bounding rectangle of a card and the pointer position of a mouse event.\<close>

record rect =
  rect_left :: real
  rect_top :: real
  rect_width :: real
  rect_height :: real

record mouse_event =
  clientX :: real
  clientY :: real

definition js_div :: "real \<Rightarrow> real \<Rightarrow> real option" where
  "js_div a b = (if b = 0 then None else Some (a / b))"

definition js_times :: "real option \<Rightarrow> real \<Rightarrow> real option" where
  "js_times a b = (case a of None \<Rightarrow> None | Some q \<Rightarrow> Some (q * b))"

text \<open>
  The transform the \<^verbatim>\<open>mousemove\<close> listener computes from the card's bounding rectangle
  and the pointer position.
\<close>

definition tiltTransform :: "rect \<Rightarrow> mouse_event \<Rightarrow> transform" where
  "tiltTransform r e =
     (let x = clientX e - rect_left r;
          y = clientY e - rect_top r;
          xCenter = rect_width r / 2;
          yCenter = rect_height r / 2;
          rotateX = js_times (js_div (y - yCenter) yCenter) (- 10);
          rotateY = js_times (js_div (x - xCenter) xCenter) 10
      in \<lparr>t_perspective = 1000, t_rotateX = rotateX, t_rotateY = rotateY, t_scale = 1.05\<rparr>)"

definition tiltMouseMove :: "rect \<Rightarrow> mouse_event \<Rightarrow> node \<Rightarrow> node" where
  "tiltMouseMove r e cardEl = cardEl\<lparr>style_transform := Some (tiltTransform r e)\<rparr>"

text \<open>The \<^verbatim>\<open>mouseleave\<close> listener writes a constant.\<close>

definition tiltMouseLeave :: "node \<Rightarrow> node" where
  "tiltMouseLeave cardEl =
     cardEl\<lparr>style_transform :=
              Some \<lparr>t_perspective = 1000, t_rotateX = Some 0, t_rotateY = Some 0, t_scale = 1\<rparr>\<rparr>"

definition tiltSelectors :: "string list" where
  "tiltSelectors = [''skill-card'', ''visual-glass-card'']"

definition tiltCard :: "nat \<Rightarrow> page \<Rightarrow> page" where
  "tiltCard cardEl p =
     addEventListener cardEl TiltMouseLeave
       (addEventListener cardEl TiltMouseMove (add_class ''tilt-card'' cardEl p))"

definition tiltInit :: "page \<Rightarrow> page" where
  "tiltInit p = fold tiltCard (querySelectorAll tiltSelectors p) p"

subsection \<open>The DOMContentLoaded callback\<close>

text \<open>
  The callback from top to bottom, in five parts: theme (lines 16 to 76), navigation
  (lines 83 to 109), typing (lines 115 to 154), reveal (lines 161 to 183, above) and tilt
  (lines 189 to 213, above). \<^verbatim>\<open>addEventListener\<close> on \<^verbatim>\<open>null\<close> throws; the exception
  leaves the callback, so what follows the throwing line never runs and what was written
  before it stays: \<open>Inl\<close> carries the page as the exception leaves it.
\<close>

definition themeInit :: "page \<Rightarrow> (error \<times> page) + page" where
  "themeInit p =
     (let themeToggleBtn = getElementById ''theme-toggle'' p;
          p1 = initTheme p
      in case themeToggleBtn of
           None \<Rightarrow> Inl (TypeError, p1)
         | Some btn \<Rightarrow> Inr (addEventListener btn ThemeToggleClick p1))"

definition navInit :: "page \<Rightarrow> (error \<times> page) + page" where
  "navInit p =
     (case querySelector ''mobile-menu-btn'' p of
        None \<Rightarrow> Inl (TypeError, p)
      | Some mobileMenuBtn \<Rightarrow>
          (let p1 = addEventListener mobileMenuBtn MobileMenuClick p;
               navLinks = querySelectorAll [''nav-link''] p1
           in Inr (fold (\<lambda>link. addEventListener link NavLinkClick) navLinks p1)))"

definition typingInit :: "string list \<Rightarrow> page \<Rightarrow> (error \<times> page) + page" where
  "typingInit roles p =
     (case querySelector ''typing-text'' p of
        None \<Rightarrow> Inr p
      | Some typingElement \<Rightarrow>
          (case typeEffect roles (anim p) of
             Inl e \<Rightarrow> Inl (e, p)
           | Inr a \<Rightarrow> Inr (p\<lparr>anim := a\<rparr>)))"

definition startup :: "string list \<Rightarrow> page \<Rightarrow> (error \<times> page) + page" where
  "startup roles p =
     (case themeInit p of
        Inl x \<Rightarrow> Inl x
      | Inr p1 \<Rightarrow>
          (case navInit p1 of
             Inl x \<Rightarrow> Inl x
           | Inr p2 \<Rightarrow>
               (case typingInit roles p2 of
                  Inl x \<Rightarrow> Inl x
                | Inr p3 \<Rightarrow> Inr (tiltInit (revealInit p3)))))"

text \<open>A page as it is when the callback starts: nothing registered, nothing scheduled.\<close>

definition fresh_page :: "node list \<Rightarrow> (string \<times> string) list \<Rightarrow> (string \<times> string) list \<Rightarrow> page" where
  "fresh_page ns attrs store =
     \<lparr>nodes = ns, root_attrs = attrs, localStorage = store, console = [], listeners = [],
      anim = anim_init, observed = []\<rparr>"

definition mk_node :: "string \<Rightarrow> string list \<Rightarrow> node" where
  "mk_node ident cs = \<lparr>node_id = ident, classList = cs, style_transform = None\<rparr>"

subsection \<open>Sample pages\<close>

text \<open>
  A page with every element the script looks for, and variants of it: one without the
  theme toggle button, one whose stored preference is the empty string, one whose stored
  preference is \<^verbatim>\<open>light\<close>, and one whose markup sets the light marker while the stored
  preference is \<^verbatim>\<open>dark\<close>.
\<close>

definition sample_nodes :: "node list" where
  "sample_nodes =
     [mk_node ''theme-toggle'' [],
      mk_node [] [''mobile-menu-btn''],
      mk_node [] [''main-nav''],
      mk_node [] [''nav-link''],
      mk_node [] [''typing-text''],
      mk_node [] [''section-title''],
      mk_node [] [''skill-card'']]"

definition sample_page :: page where
  "sample_page = fresh_page sample_nodes [] []"

definition no_toggle_page :: page where
  "no_toggle_page =
     fresh_page
       [mk_node [] [''mobile-menu-btn''],
        mk_node [] [''main-nav''],
        mk_node [] [''nav-link''],
        mk_node [] [''typing-text''],
        mk_node [] [''section-title''],
        mk_node [] [''skill-card'']] [] []"

definition empty_pref_page :: page where
  "empty_pref_page = fresh_page sample_nodes [] [(''portfolio-theme'', [])]"

definition light_page :: page where
  "light_page = fresh_page sample_nodes [] [(''portfolio-theme'', ''light'')]"

definition dark_page :: page where
  "dark_page = fresh_page sample_nodes [(''data-theme'', ''light'')] [(''portfolio-theme'', ''dark'')]"

subsection \<open>The typing effect's invariant\<close>

text \<open>
  What holds between two ticks once the effect has started on non-empty roles: the role
  index is in range; while typing the cursor is short of the end of the current role;
  while deleting it is at least one and at most the role's length.
\<close>

definition anim_inv :: "string list \<Rightarrow> animator \<Rightarrow> bool" where
  "anim_inv roles s =
     (roleIndex s < length roles \<and>
      (if isDeleting s
       then 1 \<le> charIndex s \<and> charIndex s \<le> int (length (roles ! roleIndex s))
       else 0 \<le> charIndex s \<and> charIndex s < int (length (roles ! roleIndex s))))"

subsection \<open>Settled reveal elements\<close>

text \<open>
  The element at position \<open>i\<close> is the node \<open>n\<close> and the observer does not observe it:
  the state of a reveal element after its entry has been handled, when \<open>n\<close> carries
  \<^verbatim>\<open>active\<close>.
\<close>

definition settled :: "nat \<Rightarrow> node \<Rightarrow> page \<Rightarrow> bool" where
  "settled i n p = (i < length (nodes p) \<and> nodes p ! i = n \<and> i \<notin> set (observed p))"

text \<open>The sample page after the reveal elements have been tagged and observed.\<close>

definition revealed_sample :: page where
  "revealed_sample = revealInit sample_page"

section \<open>Properties\<close>

subsection \<open>Attributes and storage\<close>

lemma hasAttribute_set: "hasAttribute k (setAttribute k v attrs)"
  by (simp add: hasAttribute_def setAttribute_def update_conv')

lemma hasAttribute_remove: "\<not> hasAttribute k (removeAttribute k attrs)"
  by (simp add: hasAttribute_def removeAttribute_def delete_conv')

lemma getItem_setItem: "getItem k (setItem k v store) = Some v"
  by (simp add: getItem_def setItem_def update_conv')

lemma applyTheme_light:
  "map_of (root_attrs (applyTheme ''light'' p)) ''data-theme'' = Some ''light''"
  by (simp add: applyTheme_def setAttribute_def update_conv')

lemma applyTheme_marker:
  "hasAttribute ''data-theme'' (root_attrs (applyTheme theme p)) = (theme = ''light'')"
  by (simp add: applyTheme_def hasAttribute_set hasAttribute_remove)

lemma toggle_marker:
  "hasAttribute ''data-theme'' (root_attrs (themeToggleClick p)) =
     (\<not> hasAttribute ''data-theme'' (root_attrs p))"
  by (simp add: themeToggleClick_def Let_def applyTheme_marker)

lemma toggle_persisted:
  "getItem THEME_STORAGE_KEY (localStorage (themeToggleClick p)) =
     Some (if hasAttribute ''data-theme'' (root_attrs p) then ''dark'' else ''light'')"
  by (simp add: themeToggleClick_def Let_def getItem_setItem)

subsection \<open>Theme toggle\<close>

text \<open>
  Claim C6. The mode is read off the marker: light when the root carries
  \<^verbatim>\<open>data-theme\<close>, dark otherwise. Whatever the mode before a click on the toggle, the
  mode after it is the opposite one and the stored preference names the mode after the
  click; two clicks restore the mode. From dark: one click gives light with \<^verbatim>\<open>light\<close>
  stored, a second gives dark with \<^verbatim>\<open>dark\<close> stored.
\<close>

theorem theme_toggle_inverts:
  "hasAttribute ''data-theme'' (root_attrs (themeToggleClick p)) =
     (\<not> hasAttribute ''data-theme'' (root_attrs p))
   \<and> getItem THEME_STORAGE_KEY (localStorage (themeToggleClick p)) =
       Some (if hasAttribute ''data-theme'' (root_attrs (themeToggleClick p))
             then ''light'' else ''dark'')
   \<and> hasAttribute ''data-theme'' (root_attrs (themeToggleClick (themeToggleClick p))) =
       hasAttribute ''data-theme'' (root_attrs p)
   \<and> (\<not> hasAttribute ''data-theme'' (root_attrs p) \<longrightarrow>
        hasAttribute ''data-theme'' (root_attrs (themeToggleClick p))
        \<and> getItem THEME_STORAGE_KEY (localStorage (themeToggleClick p)) = Some ''light''
        \<and> \<not> hasAttribute ''data-theme'' (root_attrs (themeToggleClick (themeToggleClick p)))
        \<and> getItem THEME_STORAGE_KEY (localStorage (themeToggleClick (themeToggleClick p))) =
            Some ''dark'')"
  by (simp add: toggle_marker toggle_persisted)

theorem theme_toggle_inverts_witness:
  "\<not> hasAttribute ''data-theme'' (root_attrs sample_page)
   \<and> hasAttribute ''data-theme'' (root_attrs (themeToggleClick sample_page))
   \<and> getItem THEME_STORAGE_KEY (localStorage (themeToggleClick sample_page)) = Some ''light''
   \<and> \<not> hasAttribute ''data-theme'' (root_attrs (themeToggleClick (themeToggleClick sample_page)))
   \<and> getItem THEME_STORAGE_KEY (localStorage (themeToggleClick (themeToggleClick sample_page))) =
       Some ''dark''"
proof -
  have dark: "\<not> hasAttribute ''data-theme'' (root_attrs sample_page)"
    by (simp add: sample_page_def fresh_page_def hasAttribute_def)
  show ?thesis
    using dark theme_toggle_inverts [of sample_page] by simp
qed

subsection \<open>Typing effect: a run and the delays\<close>

lemmas anim_defs = typeEffect_def role_at_def substring0_def anim_init_def

text \<open>
  Claim C3. With the roles \<^verbatim>\<open>["AB", "CD"]\<close> and the initial state, two ticks render
  \<^verbatim>\<open>AB\<close> and leave the effect deleting; two further ticks render the empty text and
  leave it typing at index 1.
\<close>

theorem typing_two_words:
  "ticks 2 [''AB'', ''CD''] anim_init =
     Inr \<lparr>roleIndex = 0, charIndex = 2, isDeleting = True, typeSpeed = 2000,
          textContent = ''AB'', timer = Some 2000\<rparr>
   \<and> ticks 2 [''AB'', ''CD'']
       \<lparr>roleIndex = 0, charIndex = 2, isDeleting = True, typeSpeed = 2000,
        textContent = ''AB'', timer = Some 2000\<rparr> =
     Inr \<lparr>roleIndex = 1, charIndex = 0, isDeleting = False, typeSpeed = 500,
          textContent = [], timer = Some 500\<rparr>
   \<and> ticks 4 [''AB'', ''CD''] anim_init =
     Inr \<lparr>roleIndex = 1, charIndex = 0, isDeleting = False, typeSpeed = 500,
          textContent = [], timer = Some 500\<rparr>"
  by (simp add: anim_defs eval_nat_numeral)

text \<open>
  Claim C4. A tick on a state whose role index is in range returns, and the delay it
  passes to \<^verbatim>\<open>setTimeout\<close> is 100 when it typed a character without completing the
  role, 2000 when the character it typed completed the role (the tick that flips to
  deleting), 50 when it deleted a character without emptying the text, and 500 when it
  deleted the last character (the tick that flips to typing and advances the index).
\<close>

theorem tick_delay:
  assumes "roleIndex s < length roles"
  shows "\<exists>s'. typeEffect roles s = Inr s'
     \<and> timer s' = Some (typeSpeed s')
     \<and> charIndex s' = (if isDeleting s then charIndex s - 1 else charIndex s + 1)
     \<and> typeSpeed s' =
         (if isDeleting s
          then (if charIndex s' = 0 then 500 else 50)
          else (if charIndex s' = int (length (roles ! roleIndex s)) then 2000 else 100))
     \<and> (typeSpeed s' = 100) = (\<not> isDeleting s \<and> \<not> isDeleting s')
     \<and> (typeSpeed s' = 2000) = (\<not> isDeleting s \<and> isDeleting s')
     \<and> (typeSpeed s' = 50) = (isDeleting s \<and> isDeleting s')
     \<and> (typeSpeed s' = 500) = (isDeleting s \<and> \<not> isDeleting s')
     \<and> roleIndex s' =
         (if typeSpeed s' = 500 then (roleIndex s + 1) mod length roles else roleIndex s)"
  using assms by (simp add: typeEffect_def role_at_def Let_def)

theorem tick_delay_witness:
  "roleIndex anim_init < length [''AB'', ''CD'']
   \<and> (\<exists>s'. typeEffect [''AB'', ''CD''] anim_init = Inr s' \<and> timer s' = Some 100
          \<and> charIndex s' = 1 \<and> \<not> isDeleting s')"
proof -
  have h: "roleIndex anim_init < length [''AB'', ''CD'']"
    by (simp add: anim_init_def)
  show ?thesis
    using h tick_delay [OF h] by (auto simp: anim_init_def)
qed

subsection \<open>Typing effect: the cursor stays inside the current role\<close>

lemma anim_inv_init: "roles \<noteq> [] \<Longrightarrow> [] \<notin> set roles \<Longrightarrow> anim_inv roles anim_init"
  by (cases roles) (auto simp: anim_inv_def anim_init_def)

lemma role_nonempty: "[] \<notin> set roles \<Longrightarrow> i < length roles \<Longrightarrow> 0 < length (roles ! i)"
  by (metis length_greater_0_conv nth_mem)

lemma anim_inv_step:
  assumes "[] \<notin> set roles" and "anim_inv roles s"
  shows "\<exists>s'. typeEffect roles s = Inr s' \<and> anim_inv roles s'"
proof -
  from assms(2) have i: "roleIndex s < length roles" by (simp add: anim_inv_def)
  then have n: "0 < length roles" by (cases roles) simp_all
  have nxt: "(roleIndex s + 1) mod length roles < length roles" using n by simp
  have "0 < length (roles ! ((roleIndex s + 1) mod length roles))"
    using assms(1) nxt by (rule role_nonempty)
  then show ?thesis
    using assms(2) i nxt by (auto simp: typeEffect_def role_at_def anim_inv_def Let_def)
qed

lemma anim_inv_ticks:
  assumes "[] \<notin> set roles" and "anim_inv roles s"
  shows "\<exists>s'. ticks n roles s = Inr s' \<and> anim_inv roles s'"
  using assms(2)
proof (induction n arbitrary: s)
  case 0
  then show ?case by simp
next
  case (Suc n)
  from anim_inv_step [OF assms(1) Suc.prems]
  obtain s1 where s1: "typeEffect roles s = Inr s1" "anim_inv roles s1" by blast
  from Suc.IH [OF s1(2)] s1(1) show ?case by simp
qed

lemma ticks_empty_roles: "ticks n [] s = Inr s' \<Longrightarrow> n = 0 \<and> s' = s"
  by (cases n) (simp_all add: typeEffect_def role_at_def)

lemma anim_inv_range:
  "anim_inv roles s \<Longrightarrow>
     0 \<le> charIndex s \<and> roleIndex s < length roles
     \<and> charIndex s \<le> int (length (roles ! roleIndex s))"
  by (auto simp: anim_inv_def split: if_splits)

lemma tick_phase:
  assumes "typeEffect roles s = Inr s'"
  shows "(isDeleting s' \<noteq> isDeleting s) =
           (if isDeleting s then charIndex s' = 0
            else charIndex s' = int (length (roles ! roleIndex s)))"
    and "roleIndex s' =
           (if isDeleting s \<and> charIndex s' = 0 then (roleIndex s + 1) mod length roles
            else roleIndex s)"
  using assms by (auto simp: typeEffect_def role_at_def Let_def split: if_splits)

text \<open>
  Claim C8. Let no role be the empty string. The states the effect reaches are the
  results of \<open>n\<close> ticks from the initial state; when there is a role at all, every number
  of ticks returns a state and the next tick returns too. In every such state the cursor
  is not negative and, when there is a role, the index is inside the roles and the cursor
  is at most the length of the current role. A tick changes the phase exactly when the
  cursor it leaves is the role's length (from typing) or 0 (from deleting), and the index
  moves, cyclically by one, on the second kind of tick only.
\<close>

theorem typing_invariant:
  assumes "[] \<notin> set roles"
  shows "(roles \<noteq> [] \<longrightarrow> (\<exists>s. ticks n roles anim_init = Inr s))
     \<and> (\<forall>s. ticks n roles anim_init = Inr s \<longrightarrow>
          0 \<le> charIndex s
          \<and> (roles \<noteq> [] \<longrightarrow>
               roleIndex s < length roles
               \<and> charIndex s \<le> int (length (roles ! roleIndex s))
               \<and> (\<exists>s'. typeEffect roles s = Inr s'))
          \<and> (\<forall>s'. typeEffect roles s = Inr s' \<longrightarrow>
               (isDeleting s' \<noteq> isDeleting s) =
                 (if isDeleting s then charIndex s' = 0
                  else charIndex s' = int (length (roles ! roleIndex s)))
               \<and> roleIndex s' =
                   (if isDeleting s \<and> charIndex s' = 0
                    then (roleIndex s + 1) mod length roles else roleIndex s)))"
proof (cases "roles = []")
  case True
  have "0 \<le> charIndex s" if "ticks n roles anim_init = Inr s" for s
  proof -
    from that True have "s = anim_init" using ticks_empty_roles by blast
    then show ?thesis by (simp add: anim_init_def)
  qed
  moreover have "typeEffect roles s \<noteq> Inr s'" for s s'
    using True by (simp add: typeEffect_def role_at_def)
  ultimately show ?thesis
    using True by simp
next
  case False
  then have init: "anim_inv roles anim_init" using assms by (rule anim_inv_init)
  from anim_inv_ticks [OF assms init, of n]
  obtain s where s: "ticks n roles anim_init = Inr s" "anim_inv roles s" by blast
  from anim_inv_step [OF assms s(2)]
  obtain s1 where s1: "typeEffect roles s = Inr s1" by blast
  have one: "s' = s" if "ticks n roles anim_init = Inr s'" for s'
    using that s(1) by simp
  note range = anim_inv_range [OF s(2)]
  show ?thesis
  proof (intro conjI allI impI)
    show "\<exists>s. ticks n roles anim_init = Inr s" using s(1) by blast
  next
    fix t assume "ticks n roles anim_init = Inr t"
    then show "0 \<le> charIndex t" using one range by blast
  next
    fix t assume "ticks n roles anim_init = Inr t"
    then show "roleIndex t < length roles" using one range by blast
  next
    fix t assume "ticks n roles anim_init = Inr t"
    then show "charIndex t \<le> int (length (roles ! roleIndex t))" using one range by blast
  next
    fix t assume "ticks n roles anim_init = Inr t"
    then show "\<exists>s'. typeEffect roles t = Inr s'" using one s1 by blast
  next
    fix t t' assume "ticks n roles anim_init = Inr t" "typeEffect roles t = Inr t'"
    then show "(isDeleting t' \<noteq> isDeleting t) =
                 (if isDeleting t then charIndex t' = 0
                  else charIndex t' = int (length (roles ! roleIndex t)))"
      using tick_phase(1) by blast
  next
    fix t t' assume "ticks n roles anim_init = Inr t" "typeEffect roles t = Inr t'"
    then show "roleIndex t' =
                   (if isDeleting t \<and> charIndex t' = 0
                    then (roleIndex t + 1) mod length roles else roleIndex t)"
      using tick_phase(2) by blast
  qed
qed

theorem typing_invariant_witness:
  "[] \<notin> set [''AB'', ''CD'']
   \<and> ticks 3 [''AB'', ''CD''] anim_init =
       Inr \<lparr>roleIndex = 0, charIndex = 1, isDeleting = True, typeSpeed = 50,
            textContent = ''A'', timer = Some 50\<rparr>
   \<and> (\<exists>s. ticks 3 [''AB'', ''CD''] anim_init = Inr s
         \<and> 0 \<le> charIndex s \<and> roleIndex s < length [''AB'', ''CD'']
         \<and> charIndex s \<le> int (length ([''AB'', ''CD''] ! roleIndex s)))"
proof -
  have h: "[] \<notin> set [''AB'', ''CD'']" by simp
  have ne: "[''AB'', ''CD''] \<noteq> []" by simp
  note T = typing_invariant [OF h, of 3]
  from T ne obtain s where s: "ticks 3 [''AB'', ''CD''] anim_init = Inr s" by blast
  with T ne have "0 \<le> charIndex s \<and> roleIndex s < length [''AB'', ''CD'']
         \<and> charIndex s \<le> int (length ([''AB'', ''CD''] ! roleIndex s))" by blast
  moreover have "ticks 3 [''AB'', ''CD''] anim_init =
       Inr \<lparr>roleIndex = 0, charIndex = 1, isDeleting = True, typeSpeed = 50,
            textContent = ''A'', timer = Some 50\<rparr>"
    by (simp add: anim_defs eval_nat_numeral)
  ultimately show ?thesis using h s by blast
qed

subsection \<open>Tilt\<close>

lemma unit_offset:
  fixes a c :: real
  assumes "0 < c" "0 \<le> a" "a \<le> 2 * c"
  shows "\<bar>(a - c) / c\<bar> \<le> 1"
proof -
  have "\<bar>a - c\<bar> \<le> c" using assms by linarith
  moreover have "\<bar>(a - c) / c\<bar> = \<bar>a - c\<bar> / c" using assms by simp
  ultimately show ?thesis using assms by simp
qed

lemma scaled_offset:
  fixes q :: real
  assumes "\<bar>q\<bar> \<le> 1"
  shows "\<bar>q * (- 10)\<bar> \<le> 10" and "\<bar>q * 10\<bar> \<le> 10"
  using assms by (simp_all add: abs_mult)

lemma tilt_bounds:
  assumes "0 < rect_width r" "0 < rect_height r"
    and "rect_left r \<le> clientX e" "clientX e \<le> rect_left r + rect_width r"
    and "rect_top r \<le> clientY e" "clientY e \<le> rect_top r + rect_height r"
  shows "\<exists>rx ry. tiltTransform r e =
            \<lparr>t_perspective = 1000, t_rotateX = Some rx, t_rotateY = Some ry, t_scale = 1.05\<rparr>
          \<and> \<bar>rx\<bar> \<le> 10 \<and> \<bar>ry\<bar> \<le> 10"
proof -
  let ?w = "rect_width r / 2" and ?h = "rect_height r / 2"
  have w: "0 < ?w" and h: "0 < ?h" using assms by simp_all
  have x: "\<bar>(clientX e - rect_left r - ?w) / ?w\<bar> \<le> 1"
    using assms by (intro unit_offset) simp_all
  have y: "\<bar>(clientY e - rect_top r - ?h) / ?h\<bar> \<le> 1"
    using assms by (intro unit_offset) simp_all
  have rx: "\<bar>(clientY e - rect_top r - ?h) / ?h * (- 10)\<bar> \<le> 10"
    using y by (rule scaled_offset)
  have ry: "\<bar>(clientX e - rect_left r - ?w) / ?w * 10\<bar> \<le> 10"
    using x by (rule scaled_offset)
  show ?thesis using w h rx ry
    by (simp add: tiltTransform_def js_div_def js_times_def Let_def)
qed

text \<open>
  Claim C1, as the script has it. The claim's second part asks for a negative
  \<^verbatim>\<open>rotateX\<close> at the top-left corner; the script multiplies the vertical offset by
  \<^verbatim>\<open>-10\<close>, so the corner's offset \<^verbatim>\<open>-1\<close> gives \<^verbatim>\<open>+10\<close>.
\<close>

theorem tilt_corner_rotateX_positive:
  "t_rotateX (tiltTransform \<lparr>rect_left = 0, rect_top = 0, rect_width = 200, rect_height = 100\<rparr>
                \<lparr>clientX = 0, clientY = 0\<rparr>) = Some 10
   \<and> t_rotateX (tiltTransform \<lparr>rect_left = 0, rect_top = 0, rect_width = 200, rect_height = 100\<rparr>
                \<lparr>clientX = 0, clientY = 0\<rparr>) \<noteq> Some (- 10)"
  by (simp add: tiltTransform_def js_div_def js_times_def)

text \<open>
  Claim C1, amended. For a card of positive width and height: a pointer move at the centre
  of the card writes \<^verbatim>\<open>rotateX = 0\<close>, \<^verbatim>\<open>rotateY = 0\<close> and scale 1.05; a pointer move
  at the top-left corner writes \<^verbatim>\<open>rotateX = +10\<close> and \<^verbatim>\<open>rotateY = -10\<close>, with scale
  1.05; for a pointer anywhere on the card both rotations are between -10 and 10, so the
  corner's are extreme; and a pointer leave writes \<^verbatim>\<open>rotateX = 0\<close>, \<^verbatim>\<open>rotateY = 0\<close>
  and scale 1, whatever the card carried before.
\<close>

theorem tilt_transform:
  "(0 < rect_width r \<and> 0 < rect_height r \<longrightarrow>
      style_transform
        (tiltMouseMove r \<lparr>clientX = rect_left r + rect_width r / 2,
                          clientY = rect_top r + rect_height r / 2\<rparr> cardEl) =
        Some \<lparr>t_perspective = 1000, t_rotateX = Some 0, t_rotateY = Some 0, t_scale = 1.05\<rparr>
      \<and> style_transform
          (tiltMouseMove r \<lparr>clientX = rect_left r, clientY = rect_top r\<rparr> cardEl) =
          Some \<lparr>t_perspective = 1000, t_rotateX = Some 10, t_rotateY = Some (- 10),
                t_scale = 1.05\<rparr>
      \<and> (\<forall>e. rect_left r \<le> clientX e \<and> clientX e \<le> rect_left r + rect_width r
             \<and> rect_top r \<le> clientY e \<and> clientY e \<le> rect_top r + rect_height r \<longrightarrow>
           (\<exists>rx ry. style_transform (tiltMouseMove r e cardEl) =
                       Some \<lparr>t_perspective = 1000, t_rotateX = Some rx, t_rotateY = Some ry,
                             t_scale = 1.05\<rparr>
                     \<and> \<bar>rx\<bar> \<le> 10 \<and> \<bar>ry\<bar> \<le> 10)))
   \<and> style_transform (tiltMouseLeave cardEl) =
       Some \<lparr>t_perspective = 1000, t_rotateX = Some 0, t_rotateY = Some 0, t_scale = 1\<rparr>"
proof (intro conjI allI impI)
  assume "0 < rect_width r \<and> 0 < rect_height r"
  then show "style_transform
        (tiltMouseMove r \<lparr>clientX = rect_left r + rect_width r / 2,
                          clientY = rect_top r + rect_height r / 2\<rparr> cardEl) =
        Some \<lparr>t_perspective = 1000, t_rotateX = Some 0, t_rotateY = Some 0, t_scale = 1.05\<rparr>"
    by (simp add: tiltMouseMove_def tiltTransform_def js_div_def js_times_def)
next
  assume "0 < rect_width r \<and> 0 < rect_height r"
  then show "style_transform
          (tiltMouseMove r \<lparr>clientX = rect_left r, clientY = rect_top r\<rparr> cardEl) =
          Some \<lparr>t_perspective = 1000, t_rotateX = Some 10, t_rotateY = Some (- 10),
                t_scale = 1.05\<rparr>"
    by (simp add: tiltMouseMove_def tiltTransform_def js_div_def js_times_def)
next
  fix e :: mouse_event
  assume "0 < rect_width r \<and> 0 < rect_height r"
    and "rect_left r \<le> clientX e \<and> clientX e \<le> rect_left r + rect_width r
             \<and> rect_top r \<le> clientY e \<and> clientY e \<le> rect_top r + rect_height r"
  then have "\<exists>rx ry. tiltTransform r e =
            \<lparr>t_perspective = 1000, t_rotateX = Some rx, t_rotateY = Some ry, t_scale = 1.05\<rparr>
          \<and> \<bar>rx\<bar> \<le> 10 \<and> \<bar>ry\<bar> \<le> 10"
    by (intro tilt_bounds) simp_all
  then show "\<exists>rx ry. style_transform (tiltMouseMove r e cardEl) =
                       Some \<lparr>t_perspective = 1000, t_rotateX = Some rx, t_rotateY = Some ry,
                             t_scale = 1.05\<rparr>
                     \<and> \<bar>rx\<bar> \<le> 10 \<and> \<bar>ry\<bar> \<le> 10"
    by (simp add: tiltMouseMove_def)
next
  show "style_transform (tiltMouseLeave cardEl) =
       Some \<lparr>t_perspective = 1000, t_rotateX = Some 0, t_rotateY = Some 0, t_scale = 1\<rparr>"
    by (simp add: tiltMouseLeave_def)
qed

theorem tilt_transform_witness:
  "(0::real) < 200 \<and> (0::real) < 100
   \<and> style_transform
       (tiltMouseMove \<lparr>rect_left = 30, rect_top = 40, rect_width = 200, rect_height = 100\<rparr>
          \<lparr>clientX = 130, clientY = 90\<rparr> (mk_node [] [''skill-card''])) =
       Some \<lparr>t_perspective = 1000, t_rotateX = Some 0, t_rotateY = Some 0, t_scale = 1.05\<rparr>
   \<and> style_transform
       (tiltMouseMove \<lparr>rect_left = 30, rect_top = 40, rect_width = 200, rect_height = 100\<rparr>
          \<lparr>clientX = 30, clientY = 40\<rparr> (mk_node [] [''skill-card''])) =
       Some \<lparr>t_perspective = 1000, t_rotateX = Some 10, t_rotateY = Some (- 10), t_scale = 1.05\<rparr>
   \<and> style_transform (tiltMouseLeave (mk_node [] [''skill-card''])) =
       Some \<lparr>t_perspective = 1000, t_rotateX = Some 0, t_rotateY = Some 0, t_scale = 1\<rparr>"
  using tilt_transform
    [of "\<lparr>rect_left = 30, rect_top = 40, rect_width = 200, rect_height = 100\<rparr>"
        "mk_node [] [''skill-card'']"]
  by simp

subsection \<open>What the callback leaves on the root\<close>

lemma fold_frame:
  assumes "\<And>x q. sel (f x q) = sel q"
  shows "sel (fold f xs p) = sel p"
  using assms by (induction xs arbitrary: p) simp_all

lemma root_attrs_addEventListener [simp]: "root_attrs (addEventListener i h p) = root_attrs p"
  by (simp add: addEventListener_def)

lemma root_attrs_update_node [simp]: "root_attrs (update_node i f p) = root_attrs p"
  by (simp add: update_node_def)

lemma root_attrs_add_class [simp]: "root_attrs (add_class c e p) = root_attrs p"
  by (simp add: add_class_def)

lemma root_attrs_observe [simp]: "root_attrs (observe e p) = root_attrs p"
  by (simp add: observe_def)

lemma root_attrs_revealInit [simp]: "root_attrs (revealInit p) = root_attrs p"
  by (simp add: revealInit_def Let_def fold_frame [where sel = root_attrs])

lemma root_attrs_tiltInit [simp]: "root_attrs (tiltInit p) = root_attrs p"
  by (simp add: tiltInit_def tiltCard_def fold_frame [where sel = root_attrs])

lemma root_attrs_typingInit:
  "typingInit roles p = Inl (e, p') \<or> typingInit roles p = Inr p' \<Longrightarrow> root_attrs p' = root_attrs p"
  by (auto simp: typingInit_def split: option.splits sum.splits)

lemma root_attrs_navInit:
  "navInit p = Inl (e, p') \<or> navInit p = Inr p' \<Longrightarrow> root_attrs p' = root_attrs p"
  by (auto simp: navInit_def Let_def fold_frame [where sel = root_attrs] split: option.splits)

lemma root_attrs_themeInit:
  "themeInit p = Inl (e, p') \<or> themeInit p = Inr p' \<Longrightarrow> root_attrs p' = root_attrs (initTheme p)"
  by (auto simp: themeInit_def Let_def split: option.splits)

lemma root_attrs_startup:
  assumes "startup roles p = Inl (e, p') \<or> startup roles p = Inr p'"
  shows "root_attrs p' = root_attrs (initTheme p)"
proof (cases "themeInit p")
  case (Inl x)
  then show ?thesis using assms root_attrs_themeInit [of p e p'] by (simp add: startup_def)
next
  case p1: (Inr p1)
  then have a1: "root_attrs p1 = root_attrs (initTheme p)" using root_attrs_themeInit by blast
  show ?thesis
  proof (cases "navInit p1")
    case (Inl x)
    then show ?thesis using assms p1 a1 root_attrs_navInit [of p1 e p'] by (simp add: startup_def)
  next
    case p2: (Inr p2)
    then have a2: "root_attrs p2 = root_attrs p1" using root_attrs_navInit by blast
    show ?thesis
    proof (cases "typingInit roles p2")
      case (Inl x)
      then show ?thesis
        using assms p1 p2 a1 a2 root_attrs_typingInit [of roles p2 e p'] by (simp add: startup_def)
    next
      case (Inr p3)
      then have "root_attrs p3 = root_attrs p2" using root_attrs_typingInit by blast
      then show ?thesis using assms p1 p2 Inr a1 a2 by (auto simp: startup_def)
    qed
  qed
qed


lemmas page_defs =
  fresh_page_def mk_node_def sample_nodes_def sample_page_def no_toggle_page_def
  empty_pref_page_def light_page_def dark_page_def

lemmas dom_defs =
  getElementById_def querySelector_def querySelectorAll_def addEventListener_def
  update_node_def add_class_def node_add_class_def classList_add_def observe_def unobserve_def
  hasAttribute_def setAttribute_def removeAttribute_def getItem_def setItem_def
  THEME_STORAGE_KEY_def

lemmas startup_defs =
  startup_def themeInit_def navInit_def typingInit_def revealInit_def tiltInit_def
  tiltCard_def initTheme_def applyTheme_def revealSelectors_def tiltSelectors_def
  script_roles_def

subsection \<open>Missing elements\<close>

text \<open>
  The toggle button and the menu button are dereferenced without a test: when either is
  missing the callback throws at that line and nothing below it runs.
\<close>

lemma startup_without_toggle:
  "getElementById ''theme-toggle'' p = None \<Longrightarrow> startup roles p = Inl (TypeError, initTheme p)"
  by (simp add: startup_def themeInit_def)

lemma nodes_initTheme [simp]: "nodes (initTheme p) = nodes p"
  by (simp add: initTheme_def applyTheme_def split: option.splits)

lemma nodes_addEventListener [simp]: "nodes (addEventListener i h p) = nodes p"
  by (simp add: addEventListener_def)

lemma querySelector_nodes: "nodes p = nodes q \<Longrightarrow> querySelector c p = querySelector c q"
  by (simp add: querySelector_def querySelectorAll_def)

lemma startup_without_menu_button:
  assumes "getElementById ''theme-toggle'' p = Some btn"
    and "querySelector ''mobile-menu-btn'' p = None"
  shows "startup roles p = Inl (TypeError, addEventListener btn ThemeToggleClick (initTheme p))"
proof -
  have "querySelector ''mobile-menu-btn'' (addEventListener btn ThemeToggleClick (initTheme p)) = None"
    using assms(2) querySelector_nodes [of "addEventListener btn ThemeToggleClick (initTheme p)" p]
    by simp
  then show ?thesis using assms(1) by (simp add: startup_def themeInit_def navInit_def)
qed

lemma startup_sample:
  "startup script_roles sample_page =
     Inr \<lparr>nodes =
            [mk_node ''theme-toggle'' [],
             mk_node [] [''mobile-menu-btn''],
             mk_node [] [''main-nav''],
             mk_node [] [''nav-link''],
             mk_node [] [''typing-text''],
             mk_node [] [''section-title'', ''reveal''],
             mk_node [] [''skill-card'', ''reveal'', ''tilt-card'']],
          root_attrs = [], localStorage = [], console = [],
          listeners = [(0, ThemeToggleClick), (1, MobileMenuClick), (3, NavLinkClick),
                       (6, TiltMouseMove), (6, TiltMouseLeave)],
          anim = \<lparr>roleIndex = 0, charIndex = 1, isDeleting = False, typeSpeed = 100,
                   textContent = ''L'', timer = Some 100\<rparr>,
          observed = [5, 6]\<rparr>"
  by (simp add: page_defs dom_defs startup_defs anim_defs)

text \<open>
  Claim C2, on the page without the theme toggle button. The callback throws the
  \<^verbatim>\<open>TypeError\<close> of line 64 and leaves the page as it found it: no listener, no timer,
  no observed element, although the menu button, the typing element and a card are all
  there. With the button in place (\<open>startup_sample\<close>) the same elements get their
  listeners, the first tick runs and the reveal elements are observed.
\<close>

theorem startup_throws_without_toggle:
  "startup script_roles no_toggle_page = Inl (TypeError, no_toggle_page)
   \<and> listeners no_toggle_page = [] \<and> timer (anim no_toggle_page) = None
   \<and> observed no_toggle_page = []"
  by (simp add: page_defs startup_def themeInit_def getElementById_def initTheme_def
      getItem_def THEME_STORAGE_KEY_def anim_init_def)

subsection \<open>Theme at start-up\<close>

lemma initTheme_light:
  assumes "getItem THEME_STORAGE_KEY (localStorage p) = Some ''light''"
  shows "map_of (root_attrs (initTheme p)) ''data-theme'' = Some ''light''"
  using assms by (simp add: initTheme_def applyTheme_light)

text \<open>
  Claim C7. When the stored preference is \<^verbatim>\<open>light\<close>, initialisation sets the marker
  \<^verbatim>\<open>data-theme = light\<close> on the root, and the marker is on the root when the callback
  ends, whether it returns or throws further down. A reload after a toggle out of dark mode
  is such a case: the page starts from its markup and the storage the toggle left.
\<close>

theorem persisted_light_roundtrip:
  "(getItem THEME_STORAGE_KEY (localStorage p) = Some ''light'' \<longrightarrow>
      map_of (root_attrs (initTheme p)) ''data-theme'' = Some ''light''
      \<and> hasAttribute ''data-theme'' (root_attrs (initTheme p))
      \<and> (\<forall>e p'. startup roles p = Inl (e, p') \<or> startup roles p = Inr p' \<longrightarrow>
            hasAttribute ''data-theme'' (root_attrs p')))
   \<and> (\<not> hasAttribute ''data-theme'' (root_attrs q) \<longrightarrow>
        hasAttribute ''data-theme''
          (root_attrs (initTheme (fresh_page ns attrs (localStorage (themeToggleClick q))))))"
proof (intro conjI impI allI)
  assume h: "getItem THEME_STORAGE_KEY (localStorage p) = Some ''light''"
  then show m: "map_of (root_attrs (initTheme p)) ''data-theme'' = Some ''light''"
    by (rule initTheme_light)
  then show a: "hasAttribute ''data-theme'' (root_attrs (initTheme p))"
    by (simp add: hasAttribute_def)
  fix e p'
  assume "startup roles p = Inl (e, p') \<or> startup roles p = Inr p'"
  then have "root_attrs p' = root_attrs (initTheme p)" by (rule root_attrs_startup)
  then show "hasAttribute ''data-theme'' (root_attrs p')" using a by simp
next
  assume "\<not> hasAttribute ''data-theme'' (root_attrs q)"
  then have "getItem THEME_STORAGE_KEY (localStorage (themeToggleClick q)) = Some ''light''"
    by (simp add: toggle_persisted)
  then have "getItem THEME_STORAGE_KEY
               (localStorage (fresh_page ns attrs (localStorage (themeToggleClick q)))) = Some ''light''"
    by (simp add: fresh_page_def)
  then have "map_of (root_attrs (initTheme (fresh_page ns attrs (localStorage (themeToggleClick q)))))
               ''data-theme'' = Some ''light''"
    by (rule initTheme_light)
  then show "hasAttribute ''data-theme''
          (root_attrs (initTheme (fresh_page ns attrs (localStorage (themeToggleClick q)))))"
    by (simp add: hasAttribute_def)
qed

theorem persisted_light_roundtrip_witness:
  "getItem THEME_STORAGE_KEY (localStorage light_page) = Some ''light''
   \<and> root_attrs light_page = []
   \<and> root_attrs (initTheme light_page) = [(''data-theme'', ''light'')]
   \<and> hasAttribute ''data-theme'' (root_attrs (initTheme light_page))
   \<and> \<not> hasAttribute ''data-theme'' (root_attrs sample_page)
   \<and> hasAttribute ''data-theme''
        (root_attrs (initTheme (fresh_page sample_nodes [] (localStorage (themeToggleClick sample_page)))))"
proof -
  have h: "getItem THEME_STORAGE_KEY (localStorage light_page) = Some ''light''"
    by (simp add: page_defs getItem_def THEME_STORAGE_KEY_def)
  have d: "\<not> hasAttribute ''data-theme'' (root_attrs sample_page)"
    by (simp add: page_defs hasAttribute_def)
  have v: "root_attrs light_page = [] \<and> root_attrs (initTheme light_page) = [(''data-theme'', ''light'')]"
    by (simp add: page_defs initTheme_def applyTheme_def getItem_def setAttribute_def
        THEME_STORAGE_KEY_def)
  show ?thesis
    using h d v persisted_light_roundtrip [of light_page script_roles sample_page sample_nodes "[]"]
    by blast
qed

lemma initTheme_applies:
  assumes "getItem THEME_STORAGE_KEY (localStorage p) = Some theme" and "theme \<noteq> []"
  shows "initTheme p = applyTheme theme p"
  using assms by (simp add: initTheme_def)

lemma initTheme_skips:
  assumes "getItem THEME_STORAGE_KEY (localStorage p) = None
           \<or> getItem THEME_STORAGE_KEY (localStorage p) = Some []"
  shows "initTheme p = p"
  using assms by (auto simp: initTheme_def)

text \<open>
  Claim C9. For every theme string other than \<^verbatim>\<open>light\<close>, the empty string and any
  unexpected value included, \<^verbatim>\<open>applyTheme\<close> removes the marker from the root, so the
  page is in dark mode. At start-up a stored string of that kind that is not empty is
  applied, and the marker is off the root afterwards; for every stored string of that
  kind, the empty one included, a page whose markup carries no marker is in dark mode
  after initialisation. Initialisation itself returns a page for every stored value, and
  whether the first part of the callback throws depends on the toggle button alone, never
  on the stored value.
\<close>

theorem non_light_is_dark:
  assumes "theme \<noteq> ''light''"
  shows "\<not> hasAttribute ''data-theme'' (root_attrs (applyTheme theme p))
     \<and> (getItem THEME_STORAGE_KEY (localStorage p) = Some theme \<longrightarrow>
          (theme \<noteq> [] \<longrightarrow>
             initTheme p = applyTheme theme p
             \<and> \<not> hasAttribute ''data-theme'' (root_attrs (initTheme p)))
          \<and> (\<not> hasAttribute ''data-theme'' (root_attrs p) \<longrightarrow>
               \<not> hasAttribute ''data-theme'' (root_attrs (initTheme p))))
     \<and> (\<exists>x. themeInit p = Inl x) = (getElementById ''theme-toggle'' p = None)"
proof (intro conjI impI)
  show dark: "\<not> hasAttribute ''data-theme'' (root_attrs (applyTheme theme p))"
    using assms by (simp add: applyTheme_marker)
  show "(\<exists>x. themeInit p = Inl x) = (getElementById ''theme-toggle'' p = None)"
    by (auto simp: themeInit_def Let_def split: option.splits)
  assume g: "getItem THEME_STORAGE_KEY (localStorage p) = Some theme"
  {
    assume "theme \<noteq> []"
    with g show a: "initTheme p = applyTheme theme p" by (rule initTheme_applies)
    show "\<not> hasAttribute ''data-theme'' (root_attrs (initTheme p))"
      using a dark by simp
  }
  assume m: "\<not> hasAttribute ''data-theme'' (root_attrs p)"
  show "\<not> hasAttribute ''data-theme'' (root_attrs (initTheme p))"
  proof (cases "theme = []")
    case True
    with g have "initTheme p = p" by (simp add: initTheme_skips)
    then show ?thesis using m by simp
  next
    case False
    with g have "initTheme p = applyTheme theme p" by (rule initTheme_applies)
    then show ?thesis using dark by simp
  qed
qed

theorem non_light_is_dark_witness:
  "''dark'' \<noteq> ''light''
   \<and> getItem THEME_STORAGE_KEY (localStorage dark_page) = Some ''dark''
   \<and> hasAttribute ''data-theme'' (root_attrs dark_page)
   \<and> \<not> hasAttribute ''data-theme'' (root_attrs (applyTheme ''dark'' dark_page))
   \<and> \<not> hasAttribute ''data-theme'' (root_attrs (initTheme dark_page))
   \<and> [] \<noteq> ''light''
   \<and> getItem THEME_STORAGE_KEY (localStorage empty_pref_page) = Some []
   \<and> \<not> hasAttribute ''data-theme'' (root_attrs (applyTheme [] empty_pref_page))
   \<and> \<not> hasAttribute ''data-theme'' (root_attrs (initTheme empty_pref_page))"
proof -
  have h: "''dark'' \<noteq> ''light''" by simp
  have g: "getItem THEME_STORAGE_KEY (localStorage dark_page) = Some ''dark''"
    by (simp add: page_defs getItem_def THEME_STORAGE_KEY_def)
  have m: "hasAttribute ''data-theme'' (root_attrs dark_page)"
    by (simp add: page_defs hasAttribute_def)
  have h': "[] \<noteq> ''light''" by simp
  have g': "getItem THEME_STORAGE_KEY (localStorage empty_pref_page) = Some []"
    by (simp add: page_defs getItem_def THEME_STORAGE_KEY_def)
  have m': "\<not> hasAttribute ''data-theme'' (root_attrs empty_pref_page)"
    by (simp add: page_defs hasAttribute_def)
  show ?thesis
    using h g m h' g' m' non_light_is_dark [OF h, of dark_page]
      non_light_is_dark [OF h', of empty_pref_page]
    by simp
qed

subsection \<open>Scroll reveal\<close>

lemma set_positions:
  "set (positions P k ns) = {k + i | i. i < length ns \<and> P (ns ! i)}"
proof (induction ns arbitrary: k)
  case Nil
  then show ?case by simp
next
  case (Cons n ns)
  have "{k + i | i. i < length (n # ns) \<and> P ((n # ns) ! i)}
        = (if P n then {k} else {}) \<union> {Suc k + i | i. i < length ns \<and> P (ns ! i)}"
  proof (intro set_eqI iffI)
    fix x assume "x \<in> {k + i | i. i < length (n # ns) \<and> P ((n # ns) ! i)}"
    then obtain i where i: "x = k + i" "i < length (n # ns)" "P ((n # ns) ! i)" by blast
    show "x \<in> (if P n then {k} else {}) \<union> {Suc k + i | i. i < length ns \<and> P (ns ! i)}"
    proof (cases i)
      case 0
      then show ?thesis using i by simp
    next
      case (Suc j)
      then have "x = Suc k + j \<and> j < length ns \<and> P (ns ! j)" using i by simp
      then show ?thesis by blast
    qed
  next
    fix x assume x: "x \<in> (if P n then {k} else {}) \<union> {Suc k + i | i. i < length ns \<and> P (ns ! i)}"
    show "x \<in> {k + i | i. i < length (n # ns) \<and> P ((n # ns) ! i)}"
    proof (cases "x = k \<and> P n")
      case True
      then have "x = k + 0 \<and> 0 < length (n # ns) \<and> P ((n # ns) ! 0)" by simp
      then show ?thesis by blast
    next
      case False
      with x obtain j where "x = Suc k + j" "j < length ns" "P (ns ! j)"
        by (auto split: if_splits)
      then have "x = k + Suc j \<and> Suc j < length (n # ns) \<and> P ((n # ns) ! Suc j)" by simp
      then show ?thesis by blast
    qed
  qed
  then show ?case using Cons.IH [of "Suc k"] by (simp split: if_splits)
qed

lemma querySelectorAll_in_range: "i \<in> set (querySelectorAll cs p) \<Longrightarrow> i < length (nodes p)"
  by (auto simp: querySelectorAll_def set_positions)


lemma fold_invariant:
  assumes "I p" and "\<And>x q. I q \<Longrightarrow> I (f x q)"
  shows "I (fold f xs p)"
  using assms(1) by (induction xs arbitrary: p) (simp_all add: assms(2))

lemma node_add_class_same: "c \<in> set (classList n) \<Longrightarrow> node_add_class c n = n"
  by (simp add: node_add_class_def classList_add_def)

lemma node_add_class_member: "c \<in> set (classList (node_add_class c n))"
  by (simp add: node_add_class_def classList_add_def)

lemma node_add_class_idem: "node_add_class c (node_add_class c n) = node_add_class c n"
  by (simp add: node_add_class_same node_add_class_member)

lemma node_add_class_others:
  "d \<noteq> c \<Longrightarrow> (d \<in> set (classList (node_add_class c n))) = (d \<in> set (classList n))"
  by (simp add: node_add_class_def classList_add_def)

lemma node_add_class_keeps: "d \<in> set (classList n) \<Longrightarrow> d \<in> set (classList (node_add_class c n))"
  by (simp add: node_add_class_def classList_add_def)

lemma length_nodes_update_node [simp]: "length (nodes (update_node i f p)) = length (nodes p)"
  by (simp add: update_node_def)

lemma nth_update_node:
  "j < length (nodes p) \<Longrightarrow>
     nodes (update_node i f p) ! j = (if i = j then f (nodes p ! j) else nodes p ! j)"
  by (simp add: update_node_def)

lemma observed_update_node [simp]: "observed (update_node i f p) = observed p"
  by (simp add: update_node_def)

lemma length_nodes_revealEntry [simp]: "length (nodes (revealEntry en p)) = length (nodes p)"
  by (simp add: revealEntry_def unobserve_def add_class_def)

lemma nth_revealEntry:
  "j < length (nodes p) \<Longrightarrow>
     nodes (revealEntry en p) ! j =
       (if isIntersecting en \<and> target en = j then node_add_class ''active'' (nodes p ! j)
        else nodes p ! j)"
  by (simp add: revealEntry_def unobserve_def add_class_def nth_update_node)

lemma observed_revealEntry:
  "observed (revealEntry en p) =
     (if isIntersecting en then removeAll (target en) (observed p) else observed p)"
  by (simp add: revealEntry_def unobserve_def add_class_def)

lemma settled_revealEntry:
  assumes "''active'' \<in> set (classList n)" and "settled i n p"
  shows "settled i n (revealEntry en p)"
  using assms
  by (auto simp: settled_def nth_revealEntry observed_revealEntry node_add_class_same)

lemma settled_revealCallback:
  assumes "''active'' \<in> set (classList n)" and "settled i n p"
  shows "settled i n (revealCallback es p)"
  unfolding revealCallback_def
  using assms(2) by (rule fold_invariant) (rule settled_revealEntry [OF assms(1)])

lemma settled_intersectionNotify:
  assumes "''active'' \<in> set (classList n)" and "settled i n p"
  shows "settled i n (intersectionNotify es p)"
  unfolding intersectionNotify_def using assms by (rule settled_revealCallback)

lemma settled_notifications:
  assumes "''active'' \<in> set (classList n)" and "settled i n p"
  shows "settled i n (notifications batches p)"
  unfolding notifications_def
  using assms(2) by (rule fold_invariant) (rule settled_intersectionNotify [OF assms(1)])

lemma settled_callbacks:
  assumes "''active'' \<in> set (classList n)" and "settled i n p"
  shows "settled i n (fold revealCallback batches p)"
  using assms(2) by (rule fold_invariant) (rule settled_revealCallback [OF assms(1)])

lemma first_intersection:
  assumes "i < length (nodes q)" and "i \<in> set (observed q)"
    and "isIntersecting en" and "target en = i"
  shows "settled i (node_add_class ''active'' (nodes q ! i)) (intersectionNotify [en] q)"
  using assms
  by (simp add: intersectionNotify_def revealCallback_def settled_def nth_revealEntry
      observed_revealEntry)


lemma revealed_sample_eval:
  "nodes revealed_sample ! 5 = mk_node [] [''section-title'', ''reveal'']
   \<and> observed revealed_sample = [5, 6] \<and> length (nodes revealed_sample) = 7"
  by (simp add: revealed_sample_def page_defs revealInit_def revealSelectors_def
      querySelectorAll_def add_class_def node_add_class_def classList_add_def update_node_def
      observe_def)


lemma length_nodes_intersectionNotify [simp]:
  "length (nodes (intersectionNotify es p)) = length (nodes p)"
  unfolding intersectionNotify_def revealCallback_def
  by (rule fold_invariant [where I = "\<lambda>q. length (nodes q) = length (nodes p)"]) simp_all

text \<open>
  Claim C5. An element that carries \<^verbatim>\<open>active\<close> and is not observed any more is never
  changed again and never observed again, whatever batches of entries follow, be they
  filtered by the browser or handed to the callback as they are. An observed element gets
  there with the first intersecting entry delivered for it: the entry adds \<^verbatim>\<open>active\<close>
  and unobserves the element, and from then on the first part applies. An entry that is
  not intersecting changes nothing.
\<close>

theorem reveal_once:
  "(i < length (nodes p) \<and> ''active'' \<in> set (classList (nodes p ! i)) \<and> i \<notin> set (observed p) \<longrightarrow>
      nodes (notifications batches p) ! i = nodes p ! i
      \<and> i \<notin> set (observed (notifications batches p))
      \<and> nodes (fold revealCallback batches p) ! i = nodes p ! i
      \<and> i \<notin> set (observed (fold revealCallback batches p)))
   \<and> (i < length (nodes q) \<and> i \<in> set (observed q) \<and> isIntersecting en \<and> target en = i \<longrightarrow>
        nodes (intersectionNotify [en] q) ! i = node_add_class ''active'' (nodes q ! i)
        \<and> ''active'' \<in> set (classList (nodes (intersectionNotify [en] q) ! i))
        \<and> i \<notin> set (observed (intersectionNotify [en] q))
        \<and> nodes (notifications batches (intersectionNotify [en] q)) ! i =
            nodes (intersectionNotify [en] q) ! i
        \<and> i \<notin> set (observed (notifications batches (intersectionNotify [en] q))))
   \<and> (\<not> isIntersecting en \<longrightarrow> intersectionNotify [en] q = q)"
proof (intro conjI impI)
  assume a: "i < length (nodes p) \<and> ''active'' \<in> set (classList (nodes p ! i)) \<and> i \<notin> set (observed p)"
  then have act: "''active'' \<in> set (classList (nodes p ! i))"
    and s: "settled i (nodes p ! i) p"
    by (simp_all add: settled_def)
  from settled_notifications [OF act s, of batches]
  show "nodes (notifications batches p) ! i = nodes p ! i"
    and "i \<notin> set (observed (notifications batches p))"
    by (simp_all add: settled_def)
  from settled_callbacks [OF act s, of batches]
  show "nodes (fold revealCallback batches p) ! i = nodes p ! i"
    and "i \<notin> set (observed (fold revealCallback batches p))"
    by (simp_all add: settled_def)
next
  assume b: "i < length (nodes q) \<and> i \<in> set (observed q) \<and> isIntersecting en \<and> target en = i"
  let ?q1 = "intersectionNotify [en] q" and ?n = "node_add_class ''active'' (nodes q ! i)"
  have act: "''active'' \<in> set (classList ?n)" by (rule node_add_class_member)
  from b have s: "settled i ?n ?q1" by (intro first_intersection) simp_all
  then show n1: "nodes ?q1 ! i = ?n" and "i \<notin> set (observed ?q1)"
    by (simp_all add: settled_def)
  then show "''active'' \<in> set (classList (nodes ?q1 ! i))" using act by simp
  from settled_notifications [OF act s, of batches] n1
  show "nodes (notifications batches ?q1) ! i = nodes ?q1 ! i"
    and "i \<notin> set (observed (notifications batches ?q1))"
    by (simp_all add: settled_def)
next
  assume "\<not> isIntersecting en"
  then show "intersectionNotify [en] q = q"
    by (simp add: intersectionNotify_def revealCallback_def revealEntry_def)
qed

theorem reveal_once_witness:
  "5 < length (nodes revealed_sample) \<and> 5 \<in> set (observed revealed_sample)
   \<and> classList (nodes revealed_sample ! 5) = [''section-title'', ''reveal'']
   \<and> classList (nodes (intersectionNotify [\<lparr>target = 5, isIntersecting = True\<rparr>] revealed_sample) ! 5) =
       [''section-title'', ''reveal'', ''active'']
   \<and> 5 \<notin> set (observed (intersectionNotify [\<lparr>target = 5, isIntersecting = True\<rparr>] revealed_sample))
   \<and> nodes (notifications
              [[\<lparr>target = 5, isIntersecting = False\<rparr>],
               [\<lparr>target = 5, isIntersecting = True\<rparr>, \<lparr>target = 6, isIntersecting = True\<rparr>]]
              (intersectionNotify [\<lparr>target = 5, isIntersecting = True\<rparr>] revealed_sample)) ! 5 =
       nodes (intersectionNotify [\<lparr>target = 5, isIntersecting = True\<rparr>] revealed_sample) ! 5
   \<and> 5 \<notin> set (observed (notifications
              [[\<lparr>target = 5, isIntersecting = False\<rparr>],
               [\<lparr>target = 5, isIntersecting = True\<rparr>, \<lparr>target = 6, isIntersecting = True\<rparr>]]
              (intersectionNotify [\<lparr>target = 5, isIntersecting = True\<rparr>] revealed_sample)))"
proof -
  let ?en = "\<lparr>target = 5, isIntersecting = True\<rparr>"
  let ?q = revealed_sample
  let ?p = "intersectionNotify [?en] ?q"
  let ?bs = "[[\<lparr>target = 5, isIntersecting = False\<rparr>],
              [\<lparr>target = 5, isIntersecting = True\<rparr>, \<lparr>target = 6, isIntersecting = True\<rparr>]]"
  note T = reveal_once [of 5 ?p ?bs ?q ?en]
  have h: "5 < length (nodes ?q) \<and> 5 \<in> set (observed ?q) \<and> isIntersecting ?en \<and> target ?en = 5"
    using revealed_sample_eval by simp
  from T h have step: "nodes ?p ! 5 = node_add_class ''active'' (nodes ?q ! 5)
      \<and> ''active'' \<in> set (classList (nodes ?p ! 5)) \<and> 5 \<notin> set (observed ?p)"
    by blast
  have len: "5 < length (nodes ?p)" using h by simp
  from T step len have stable: "nodes (notifications ?bs ?p) ! 5 = nodes ?p ! 5
      \<and> 5 \<notin> set (observed (notifications ?bs ?p))"
    by blast
  have cls: "classList (nodes ?q ! 5) = [''section-title'', ''reveal'']
      \<and> classList (nodes ?p ! 5) = [''section-title'', ''reveal'', ''active'']"
    using step revealed_sample_eval by (simp add: node_add_class_def classList_add_def mk_node_def)
  show ?thesis using h step stable cls by simp
qed

lemma nth_revealCallback:
  "j < length (nodes p) \<Longrightarrow>
     nodes (revealCallback es p) ! j =
       (if \<exists>en\<in>set es. isIntersecting en \<and> target en = j
        then node_add_class ''active'' (nodes p ! j) else nodes p ! j)"
  unfolding revealCallback_def
proof (induction es arbitrary: p)
  case Nil
  then show ?case by simp
next
  case (Cons en es)
  have l: "j < length (nodes (revealEntry en p))" using Cons.prems by simp
  show ?case
    using Cons.IH [OF l] Cons.prems
    by (auto simp: nth_revealEntry node_add_class_idem)
qed

lemma length_nodes_revealCallback [simp]:
  "length (nodes (revealCallback es p)) = length (nodes p)"
  unfolding revealCallback_def
  by (rule fold_invariant [where I = "\<lambda>q. length (nodes q) = length (nodes p)"]) simp_all

lemma length_nodes_add_class [simp]: "length (nodes (add_class c e p)) = length (nodes p)"
  by (simp add: add_class_def)

lemma nth_fold_add_class:
  "j < length (nodes p) \<Longrightarrow>
     nodes (fold (add_class c) es p) ! j =
       (if j \<in> set es then node_add_class c (nodes p ! j) else nodes p ! j)"
proof (induction es arbitrary: p)
  case Nil
  then show ?case by simp
next
  case (Cons e es)
  have l: "j < length (nodes (add_class c e p))" using Cons.prems by simp
  show ?case
    using Cons.IH [OF l] Cons.prems
    by (auto simp: add_class_def nth_update_node node_add_class_idem)
qed

lemma nodes_observe [simp]: "nodes (observe e p) = nodes p"
  by (simp add: observe_def)

lemma nodes_fold_observe [simp]: "nodes (fold observe es p) = nodes p"
  by (induction es arbitrary: p) simp_all

lemma observed_add_class [simp]: "observed (add_class c e p) = observed p"
  by (simp add: add_class_def)

lemma observed_fold_observe: "set (observed (fold observe es p)) = set (observed p) \<union> set es"
  by (induction es arbitrary: p) (auto simp: observe_def)

lemma length_nodes_fold_add_class [simp]:
  "length (nodes (fold (add_class c) es p)) = length (nodes p)"
  by (rule fold_invariant [where I = "\<lambda>q. length (nodes q) = length (nodes p)"]) simp_all

lemma revealInit_registers:
  assumes "i \<in> set (querySelectorAll revealSelectors p)"
  shows "i < length (nodes (revealInit p))"
    and "nodes (revealInit p) ! i = node_add_class ''reveal'' (nodes p ! i)"
    and "i \<in> set (observed (revealInit p))"
proof -
  from assms have l: "i < length (nodes p)" by (rule querySelectorAll_in_range)
  then show "i < length (nodes (revealInit p))" by (simp add: revealInit_def Let_def)
  show "nodes (revealInit p) ! i = node_add_class ''reveal'' (nodes p ! i)"
    using assms l by (simp add: revealInit_def Let_def nth_fold_add_class)
  show "i \<in> set (observed (revealInit p))"
    using assms by (simp add: revealInit_def Let_def observed_fold_observe)
qed


text \<open>
  Claim C10. Registration puts \<^verbatim>\<open>reveal\<close> on every reveal element, and an intersecting
  entry for such an element leaves it with both \<^verbatim>\<open>reveal\<close> and \<^verbatim>\<open>active\<close>. For any
  batch of entries the callback keeps the number of elements; an element named by an
  intersecting entry becomes itself with \<^verbatim>\<open>active\<close> added to its class list, every other
  element stays as it is; so \<^verbatim>\<open>reveal\<close> is never removed and no class other than
  \<^verbatim>\<open>active\<close> enters or leaves any class list.
\<close>

theorem reveal_keeps_pending_marker:
  "(\<forall>i\<in>set (querySelectorAll revealSelectors p).
      ''reveal'' \<in> set (classList (nodes (revealInit p) ! i))
      \<and> nodes (intersectionNotify [\<lparr>target = i, isIntersecting = True\<rparr>] (revealInit p)) ! i =
          node_add_class ''active'' (nodes (revealInit p) ! i)
      \<and> {''reveal'', ''active''} \<subseteq>
          set (classList
                (nodes (intersectionNotify [\<lparr>target = i, isIntersecting = True\<rparr>] (revealInit p)) ! i)))
   \<and> length (nodes (revealCallback es q)) = length (nodes q)
   \<and> (\<forall>j<length (nodes q).
        nodes (revealCallback es q) ! j =
          (if \<exists>en\<in>set es. isIntersecting en \<and> target en = j
           then node_add_class ''active'' (nodes q ! j) else nodes q ! j)
        \<and> (''reveal'' \<in> set (classList (nodes q ! j)) \<longrightarrow>
             ''reveal'' \<in> set (classList (nodes (revealCallback es q) ! j)))
        \<and> (\<forall>c. c \<noteq> ''active'' \<longrightarrow>
             (c \<in> set (classList (nodes (revealCallback es q) ! j))) =
             (c \<in> set (classList (nodes q ! j)))))"
proof (intro conjI ballI allI impI)
  fix i assume i: "i \<in> set (querySelectorAll revealSelectors p)"
  let ?en = "\<lparr>target = i, isIntersecting = True\<rparr>"
  note reg = revealInit_registers [OF i]
  show r: "''reveal'' \<in> set (classList (nodes (revealInit p) ! i))"
    using reg(2) by (simp add: node_add_class_member)
  have "settled i (node_add_class ''active'' (nodes (revealInit p) ! i))
          (intersectionNotify [?en] (revealInit p))"
    using reg(1) reg(3) by (intro first_intersection) simp_all
  then show n: "nodes (intersectionNotify [?en] (revealInit p)) ! i =
          node_add_class ''active'' (nodes (revealInit p) ! i)"
    by (simp add: settled_def)
  show "{''reveal'', ''active''} \<subseteq>
          set (classList (nodes (intersectionNotify [?en] (revealInit p)) ! i))"
    using n r by (simp add: node_add_class_member node_add_class_keeps)
next
  show "length (nodes (revealCallback es q)) = length (nodes q)" by simp
next
  fix j assume j: "j < length (nodes q)"
  show "nodes (revealCallback es q) ! j =
          (if \<exists>en\<in>set es. isIntersecting en \<and> target en = j
           then node_add_class ''active'' (nodes q ! j) else nodes q ! j)"
    using j by (rule nth_revealCallback)
next
  fix j assume j: "j < length (nodes q)"
    and r: "''reveal'' \<in> set (classList (nodes q ! j))"
  show "''reveal'' \<in> set (classList (nodes (revealCallback es q) ! j))"
    using r by (simp add: nth_revealCallback [OF j] node_add_class_keeps)
next
  fix j c assume j: "j < length (nodes q)" and c: "c \<noteq> ''active''"
  show "(c \<in> set (classList (nodes (revealCallback es q) ! j))) =
             (c \<in> set (classList (nodes q ! j)))"
    using c by (simp add: nth_revealCallback [OF j] node_add_class_others)
qed

theorem reveal_keeps_pending_marker_witness:
  "6 \<in> set (querySelectorAll revealSelectors sample_page)
   \<and> classList (nodes sample_page ! 6) = [''skill-card'']
   \<and> classList (nodes (revealInit sample_page) ! 6) = [''skill-card'', ''reveal'']
   \<and> classList (nodes (intersectionNotify [\<lparr>target = 6, isIntersecting = True\<rparr>]
                          (revealInit sample_page)) ! 6) =
       [''skill-card'', ''reveal'', ''active'']
   \<and> 5 < length (nodes revealed_sample)
   \<and> nodes (revealCallback [\<lparr>target = 6, isIntersecting = True\<rparr>] revealed_sample) ! 5 =
       nodes revealed_sample ! 5"
proof -
  let ?en = "\<lparr>target = 6, isIntersecting = True\<rparr>"
  note T = reveal_keeps_pending_marker [of sample_page "[?en]" revealed_sample]
  have m: "6 \<in> set (querySelectorAll revealSelectors sample_page)"
    by (simp add: page_defs revealSelectors_def querySelectorAll_def)
  have c0: "classList (nodes sample_page ! 6) = [''skill-card'']"
    by (simp add: page_defs)
  have c1: "classList (nodes (revealInit sample_page) ! 6) = [''skill-card'', ''reveal'']"
    using revealInit_registers(2) [OF m] c0 by (simp add: node_add_class_def classList_add_def)
  from T m have "nodes (intersectionNotify [?en] (revealInit sample_page)) ! 6 =
          node_add_class ''active'' (nodes (revealInit sample_page) ! 6)"
    by blast
  then have c2: "classList (nodes (intersectionNotify [?en] (revealInit sample_page)) ! 6) =
       [''skill-card'', ''reveal'', ''active'']"
    using c1 by (simp add: node_add_class_def classList_add_def)
  have l: "5 < length (nodes revealed_sample)" using revealed_sample_eval by simp
  from T l have "nodes (revealCallback [?en] revealed_sample) ! 5 =
          (if \<exists>en\<in>set [?en]. isIntersecting en \<and> target en = 5
           then node_add_class ''active'' (nodes revealed_sample ! 5) else nodes revealed_sample ! 5)"
    by blast
  then have c3: "nodes (revealCallback [?en] revealed_sample) ! 5 = nodes revealed_sample ! 5"
    by simp
  show ?thesis using m c0 c1 c2 l c3 by simp
qed

end
